theory Spec2Isabelle
  imports Complex_Main "HOL-Library.Multiset" "HOL-Library.AList"
begin


definition py_slice :: "'a list \<Rightarrow> int \<Rightarrow> int \<Rightarrow> 'a list" where
  "py_slice xs i j =
     (let n = int (length xs);
          lo = (if i < 0 then max 0 (i + n) else min i n);
          hi = (if j < 0 then max 0 (j + n) else min j n)
      in take (nat (hi - lo)) (drop (nat lo) xs))"

partial_function (option) chunk_loop ::
  "(nat list \<Rightarrow> 'c) \<Rightarrow> nat list \<Rightarrow> int \<Rightarrow> int \<Rightarrow> int \<Rightarrow> 'c list \<Rightarrow> 'c list option" where
  "chunk_loop decode tokens max_chunk_size overlap_size start chunks =
     (if start < int (length tokens) then
        (let stop = min (start + max_chunk_size) (int (length tokens)) in
         chunk_loop decode tokens max_chunk_size overlap_size
           (start + (max_chunk_size - overlap_size))
           (chunks @ [decode (py_slice tokens start stop)]))
      else Some chunks)"

declare chunk_loop.simps [code]

definition chunk_text ::
  "(string \<Rightarrow> nat list) \<Rightarrow> (nat list \<Rightarrow> string) \<Rightarrow> string \<Rightarrow> int \<Rightarrow> int \<Rightarrow> string list option" where
  "chunk_text encode decode text max_chunk_size overlap_size =
     chunk_loop decode (encode text) max_chunk_size overlap_size 0 []"

definition ceil_div :: "int \<Rightarrow> int \<Rightarrow> int" where
  "ceil_div a b = - ((- a) div b)"

definition window :: "nat list \<Rightarrow> int \<Rightarrow> int \<Rightarrow> int \<Rightarrow> nat \<Rightarrow> nat list" where
  "window tokens max_chunk_size overlap_size start i =
     (let b = start + int i * (max_chunk_size - overlap_size)
      in py_slice tokens b (min (b + max_chunk_size) (int (length tokens))))"


definition chunk_windows :: "nat list \<Rightarrow> int \<Rightarrow> int \<Rightarrow> nat list list option" where
  "chunk_windows tokens max_chunk_size overlap_size =
     chunk_loop (\<lambda>w. w) tokens max_chunk_size overlap_size 0 []"

definition overlap_by :: "nat \<Rightarrow> 'a list \<Rightarrow> 'a list \<Rightarrow> bool" where
  "overlap_by k a b \<longleftrightarrow>
     k \<le> length a \<and> k \<le> length b \<and> drop (length a - k) a = take k b"

definition byte_encode :: "string \<Rightarrow> nat list" where
  "byte_encode s = map of_char s"

definition byte_decode :: "nat list \<Rightarrow> string" where
  "byte_decode w = map char_of w"

subsection \<open>Python string operations\<close>

definition py_isspace :: "char \<Rightarrow> bool" where
  "py_isspace c \<longleftrightarrow> (of_char c :: nat) \<in> {9, 10, 11, 12, 13, 28, 29, 30, 31, 32}"

definition py_strip :: "string \<Rightarrow> string" where
  "py_strip s = rev (dropWhile py_isspace (rev (dropWhile py_isspace s)))"

definition py_lower_char :: "char \<Rightarrow> char" where
  "py_lower_char c =
     (if 65 \<le> (of_char c :: nat) \<and> (of_char c :: nat) \<le> 90 then char_of (of_char c + 32 :: nat) else c)"

definition py_lower :: "string \<Rightarrow> string" where
  "py_lower s = map py_lower_char s"

definition py_endswith :: "string \<Rightarrow> string \<Rightarrow> bool" where
  "py_endswith s suffix \<longleftrightarrow>
     length suffix \<le> length s \<and> drop (length s - length suffix) s = suffix"

fun py_contains :: "string \<Rightarrow> string \<Rightarrow> bool" where
  "py_contains sub [] = (sub = [])"
| "py_contains sub (c # cs) = (take (length sub) (c # cs) = sub \<or> py_contains sub cs)"

fun py_join :: "string \<Rightarrow> string list \<Rightarrow> string" where
  "py_join sep [] = []"
| "py_join sep [x] = x"
| "py_join sep (x # y # ys) = x @ sep @ py_join sep (y # ys)"

fun split_acc :: "string \<Rightarrow> string \<Rightarrow> string list" where
  "split_acc cur [] = (if cur = [] then [] else [cur])"
| "split_acc cur (c # cs) =
     (if py_isspace c then (if cur = [] then split_acc [] cs else cur # split_acc [] cs)
      else split_acc (cur @ [c]) cs)"

definition py_split :: "string \<Rightarrow> string list" where
  "py_split s = split_acc [] s"

definition path_join :: "string \<Rightarrow> string \<Rightarrow> string" where
  "path_join a b =
     (if take 1 b = ''/'' then b
      else if a = [] \<or> py_endswith a ''/'' then a @ b
      else a @ ''/'' @ b)"

fun py_getitem :: "'a list \<Rightarrow> int \<Rightarrow> 'a option" where
  "py_getitem xs i =
     (let n = int (length xs); j = (if i < 0 then i + n else i)
      in if 0 \<le> j \<and> j < n then Some (xs ! nat j) else None)"


subsection \<open>Exceptions, external collaborators, data\<close>

datatype exn = HTTPException nat string | ValueError string | Exception string

record meta =
  meta_chunks :: "string list option"
  meta_embedding_model :: "string option"

record 'v env =
  pdf_pages :: "string \<Rightarrow> string + string option list"
  tok_encode :: "string \<Rightarrow> nat list"
  tok_decode :: "nat list \<Rightarrow> string"
  sentence_transformer :: "string \<Rightarrow> string + (string \<Rightarrow> 'v)"
  inner_product :: "'v \<Rightarrow> 'v \<Rightarrow> real"
  write_index :: "'v list \<Rightarrow> string"
  read_index :: "string \<Rightarrow> string + 'v list"
  json_dump :: "meta \<Rightarrow> string"
  json_load :: "string \<Rightarrow> string + meta"
  hf_chat_completion :: "string \<Rightarrow> string \<Rightarrow> string \<Rightarrow> string \<Rightarrow> string + string option"
  openai_chat_completion :: "string \<Rightarrow> string \<Rightarrow> string \<Rightarrow> string \<Rightarrow> string + string option"

record 'v document =
  doc_filename :: "string option"
  doc_file_path :: "string option"
  doc_index_path :: "string option"
  doc_meta_path :: "string option"
  doc_chunks :: "string list"
  doc_index :: "'v list"
  doc_embedding_model :: "string"

record 'v state =
  documents_store :: "(string \<times> 'v document) list"
  files :: "string \<rightharpoonup> string"

datatype io_fault = NoFault | SaveFails string | IndexWriteFails string | MetaWriteFails string

record upload_response =
  up_document_id :: string
  up_filename :: string
  up_num_chunks :: nat
  up_embedding_model :: string
  up_message :: string

record chat_request =
  req_document_id :: string
  req_query :: string
  req_top_k :: int
  req_provider :: string
  req_llm_model :: string
  req_api_key :: string

record chat_response =
  resp_answer :: string
  resp_sources :: "string list"
  resp_model_used :: string
  resp_provider :: string

datatype remote_call = RemoteCall string string string string string

definition UPLOAD_DIR :: string where "UPLOAD_DIR = ''uploads''"
definition INDEX_DIR :: string where "INDEX_DIR = ''indexes''"

definition file_path_of :: "string \<Rightarrow> string" where
  "file_path_of document_id = path_join UPLOAD_DIR (document_id @ ''.pdf'')"

definition index_path_of :: "string \<Rightarrow> string" where
  "index_path_of document_id = path_join INDEX_DIR (document_id @ ''.index'')"

definition meta_path_of :: "string \<Rightarrow> string" where
  "meta_path_of document_id = path_join INDEX_DIR (document_id @ ''_meta.json'')"

subsection \<open>pdf_text.py\<close>

definition extract_text_from_pdf ::
  "'v env \<Rightarrow> (string \<rightharpoonup> string) \<Rightarrow> string \<Rightarrow> exn + string" where
  "extract_text_from_pdf env fs file_path =
     (case fs file_path of
        None \<Rightarrow> Inl (Exception ''No such file or directory'')
      | Some content \<Rightarrow>
          (case pdf_pages env content of
             Inl e \<Rightarrow> Inl (Exception e)
           | Inr pages \<Rightarrow>
               let text = py_join '' '' (map (\<lambda>p. case p of None \<Rightarrow> [] | Some t \<Rightarrow> t) pages)
               in Inr (py_join '' '' (py_split text))))"

subsection \<open>embed_store.py\<close>

definition get_embedding_model :: "'v env \<Rightarrow> string \<Rightarrow> exn + (string \<Rightarrow> 'v)" where
  "get_embedding_model env model_name =
     (if model_name = [] then Inl (ValueError ''Embedding model name is required'')
      else case sentence_transformer env model_name of
             Inl e \<Rightarrow> Inl (Exception e)
           | Inr model \<Rightarrow> Inr model)"

definition embed_texts :: "'v env \<Rightarrow> string list \<Rightarrow> string \<Rightarrow> exn + 'v list" where
  "embed_texts env texts model_name =
     (if model_name = [] then Inl (ValueError ''Embedding model name is required'')
      else case get_embedding_model env model_name of
             Inl e \<Rightarrow> Inl e
           | Inr model \<Rightarrow> Inr (map model texts))"

subsection \<open>The exact inner-product index (faiss.IndexFlatIP)\<close>

definition ranked_rows :: "('v \<Rightarrow> 'v \<Rightarrow> real) \<Rightarrow> 'v list \<Rightarrow> 'v \<Rightarrow> nat list" where
  "ranked_rows ip rows q = sort_key (\<lambda>i. - ip (rows ! i) q) [0..<length rows]"

definition index_search :: "('v \<Rightarrow> 'v \<Rightarrow> real) \<Rightarrow> 'v list \<Rightarrow> 'v list \<Rightarrow> int \<Rightarrow> exn + int list list" where
  "index_search ip rows qs k =
     (if k \<le> 0 then Inl (Exception ''AssertionError'')
      else Inr (map (\<lambda>q. map int (take (nat k) (ranked_rows ip rows q))
                          @ replicate (nat k - length rows) (- 1)) qs))"

subsection \<open>rag_answer.py\<close>

fun lookup_all :: "'a list \<Rightarrow> int list \<Rightarrow> exn + 'a list" where
  "lookup_all chunks [] = Inr []"
| "lookup_all chunks (i # is) =
     (if i \<noteq> - 1 then
        (case py_getitem chunks i of
           None \<Rightarrow> Inl (Exception ''list index out of range'')
         | Some c \<Rightarrow> (case lookup_all chunks is of Inl e \<Rightarrow> Inl e | Inr cs \<Rightarrow> Inr (c # cs)))
      else lookup_all chunks is)"

definition retrieve ::
  "'v env \<Rightarrow> string \<Rightarrow> 'v list \<Rightarrow> string list \<Rightarrow> int \<Rightarrow> string \<Rightarrow> exn + string list" where
  "retrieve env query index chunks top_k embedding_model =
     (if embedding_model = [] then Inl (ValueError ''Embedding model is required for retrieval'')
      else case embed_texts env [query] embedding_model of
             Inl e \<Rightarrow> Inl e
           | Inr qvector \<Rightarrow>
               (case index_search (inner_product env) index qvector top_k of
                  Inl e \<Rightarrow> Inl e
                | Inr indices \<Rightarrow>
                    (case indices of
                       [] \<Rightarrow> Inl (Exception ''index 0 is out of bounds'')
                     | row # _ \<Rightarrow> lookup_all chunks row)))"

definition generate_remote ::
  "(string \<Rightarrow> string \<Rightarrow> string \<Rightarrow> string \<Rightarrow> string + string option) \<Rightarrow>
     string \<Rightarrow> string \<Rightarrow> string \<Rightarrow> string \<Rightarrow> string + string" where
  "generate_remote chat_completion system_prompt user_prompt model api_key =
     (case chat_completion system_prompt user_prompt model api_key of
        Inl e \<Rightarrow> Inl e
      | Inr None \<Rightarrow> Inl ([CHR 0x27] @ ''NoneType'' @ [CHR 0x27] @ '' object has no attribute ''
                           @ [CHR 0x27] @ ''strip'' @ [CHR 0x27])
      | Inr (Some content) \<Rightarrow> Inr (py_strip content))"

definition provider_detail :: string where
  "provider_detail =
     ''Provider must be '' @ [CHR 0x27] @ ''huggingface'' @ [CHR 0x27] @ '' or ''
       @ [CHR 0x27] @ ''openai'' @ [CHR 0x27]"

definition system_prompt_text :: string where
  "system_prompt_text =
     ''You are a helpful assistant. Answer concisely using only the provided context.''"

definition user_prompt_text :: "string list \<Rightarrow> string \<Rightarrow> string" where
  "user_prompt_text ctx query =
     ''Context: '' @ py_join [CHR 10] ctx @ [CHR 10, CHR 10] @ ''Question: '' @ query
       @ [CHR 10, CHR 10] @ ''Answer:''"

definition classify_failure :: "string \<Rightarrow> exn" where
  "classify_failure e =
     (let error_msg = py_lower e
      in if py_contains ''rate limit'' error_msg then Exception ''Rate limit exceeded. Try again later.''
         else if py_contains ''model'' error_msg then Exception (''Model error: '' @ e)
         else Exception (''Failed to generate answer: '' @ e))"

definition generate_answer ::
  "'v env \<Rightarrow> string \<Rightarrow> string list \<Rightarrow> string \<Rightarrow> string \<Rightarrow> string \<Rightarrow>
     remote_call list \<times> (exn + string)" where
  "generate_answer env query ctx provider llm_model api_key =
     (if provider = [] \<or> provider \<notin> set [''huggingface'', ''openai'']
        then ([], Inl (ValueError provider_detail))
      else if llm_model = [] then ([], Inl (ValueError ''LLM model name is required''))
      else if api_key = [] then ([], Inl (ValueError ''API key is required''))
      else
        let system_prompt = system_prompt_text;
            user_prompt = user_prompt_text ctx query;
            r = (if provider = ''openai''
                 then generate_remote (openai_chat_completion env) system_prompt user_prompt llm_model api_key
                 else generate_remote (hf_chat_completion env) system_prompt user_prompt llm_model api_key)
        in ([RemoteCall provider system_prompt user_prompt llm_model api_key],
            case r of Inr answer \<Rightarrow> Inr answer | Inl e \<Rightarrow> Inl (classify_failure e)))"


subsection \<open>main.py\<close>

definition remove_file :: "string \<Rightarrow> 'v state \<Rightarrow> 'v state" where
  "remove_file path s = s\<lparr>files := (files s)(path := None)\<rparr>"

definition persist_and_register ::
  "'v env \<Rightarrow> 'v state \<Rightarrow> string \<Rightarrow> string \<Rightarrow> string \<Rightarrow> string \<Rightarrow> string list \<Rightarrow> 'v list \<Rightarrow>
     io_fault \<Rightarrow> (exn + upload_response) \<times> 'v state" where
  "persist_and_register env s filename embed_model document_id file_path chunks index fault =
     (let index_path = index_path_of document_id;
          meta_path = meta_path_of document_id
      in case fault of
           IndexWriteFails e \<Rightarrow> (Inl (Exception e), s)
         | _ \<Rightarrow>
             let s1 = s\<lparr>files := (files s)(index_path \<mapsto> write_index env index)\<rparr>
             in (case fault of
                   MetaWriteFails e \<Rightarrow> (Inl (Exception e), s1)
                 | _ \<Rightarrow>
                     let s2 = s1\<lparr>files := (files s1)(meta_path \<mapsto>
                                json_dump env \<lparr>meta_chunks = Some chunks,
                                                meta_embedding_model = Some embed_model\<rparr>)\<rparr>;
                         s3 = s2\<lparr>documents_store :=
                                AList.update document_id
                                  \<lparr>doc_filename = Some filename,
                                   doc_file_path = Some file_path,
                                   doc_index_path = Some index_path,
                                   doc_meta_path = Some meta_path,
                                   doc_chunks = chunks,
                                   doc_index = index,
                                   doc_embedding_model = embed_model\<rparr>
                                  (documents_store s2)\<rparr>
                     in (Inr \<lparr>up_document_id = document_id,
                              up_filename = filename,
                              up_num_chunks = length chunks,
                              up_embedding_model = embed_model,
                              up_message = ''Document uploaded and indexed successfully''\<rparr>,
                         s3)))"

definition upload_process ::
  "'v env \<Rightarrow> 'v state \<Rightarrow> string \<Rightarrow> string \<Rightarrow> string \<Rightarrow> string \<Rightarrow> io_fault \<Rightarrow>
     ((exn + upload_response) \<times> 'v state) option" where
  "upload_process env s filename embed_model document_id file_path fault =
     (case extract_text_from_pdf env (files s) file_path of
        Inl e \<Rightarrow> Some (Inl e, s)
      | Inr text \<Rightarrow>
          if py_strip text = [] then
            Some (Inl (HTTPException 400 ''Could not extract text from PDF''), s)
          else
            (case chunk_text (tok_encode env) (tok_decode env) text 500 80 of
               None \<Rightarrow> None
             | Some chunks \<Rightarrow>
                 if chunks = [] then
                   Some (Inl (HTTPException 400 ''Could not create chunks from PDF''), s)
                 else
                   (case embed_texts env chunks embed_model of
                      Inl e \<Rightarrow> Some (Inl e, s)
                    | Inr vectors \<Rightarrow>
                        Some (persist_and_register env s filename embed_model document_id
                                file_path chunks vectors fault))))"

fun upload_handler ::
  "string \<Rightarrow> (exn + upload_response) \<times> 'v state \<Rightarrow> (exn + upload_response) \<times> 'v state" where
  "upload_handler file_path (Inr r, s) = (Inr r, s)"
| "upload_handler file_path (Inl (HTTPException c d), s) = (Inl (HTTPException c d), s)"
| "upload_handler file_path (Inl (ValueError e), s) =
     (Inl (HTTPException 500 (''Failed to process PDF: '' @ e)), remove_file file_path s)"
| "upload_handler file_path (Inl (Exception e), s) =
     (Inl (HTTPException 500 (''Failed to process PDF: '' @ e)), remove_file file_path s)"

definition upload_pdf ::
  "'v env \<Rightarrow> 'v state \<Rightarrow> string \<Rightarrow> string \<Rightarrow> string \<Rightarrow> string \<Rightarrow> io_fault \<Rightarrow>
     ((exn + upload_response) \<times> 'v state) option" where
  "upload_pdf env s filename content embedding_model document_id fault =
     (if \<not> py_endswith (py_lower filename) ''.pdf'' then
        Some (Inl (HTTPException 400 ''Only PDF files are allowed''), s)
      else if embedding_model = [] \<or> py_strip embedding_model = [] then
        Some (Inl (HTTPException 400 ''Embedding model is required''), s)
      else
        let embed_model = py_strip embedding_model;
            file_path = file_path_of document_id
        in (case fault of
              SaveFails e \<Rightarrow> Some (Inl (HTTPException 500 (''Failed to save file: '' @ e)), s)
            | _ \<Rightarrow>
                map_option (upload_handler file_path)
                  (upload_process env (s\<lparr>files := (files s)(file_path \<mapsto> content)\<rparr>)
                     filename embed_model document_id file_path fault)))"

fun reraise :: "string \<Rightarrow> exn \<Rightarrow> exn" where
  "reraise prefix (HTTPException c d) = HTTPException c d"
| "reraise prefix (ValueError e) = HTTPException 500 (prefix @ e)"
| "reraise prefix (Exception e) = HTTPException 500 (prefix @ e)"

definition loaded_entry :: "'v list \<Rightarrow> meta \<Rightarrow> string \<Rightarrow> 'v document" where
  "loaded_entry index metadata embed_model =
     \<lparr>doc_filename = None, doc_file_path = None,
      doc_index_path = None, doc_meta_path = None,
      doc_chunks = (case meta_chunks metadata of None \<Rightarrow> [] | Some c \<Rightarrow> c),
      doc_index = index,
      doc_embedding_model = embed_model\<rparr>"

definition load_document :: "'v env \<Rightarrow> 'v state \<Rightarrow> string \<Rightarrow> string \<Rightarrow> string \<Rightarrow> exn + 'v state" where
  "load_document env s document_id index_blob meta_text =
     (case read_index env index_blob of
        Inl e \<Rightarrow> Inl (Exception e)
      | Inr index \<Rightarrow>
          (case json_load env meta_text of
             Inl e \<Rightarrow> Inl (Exception e)
           | Inr metadata \<Rightarrow>
               (case meta_embedding_model metadata of
                  None \<Rightarrow> Inl (HTTPException 500 ''Document missing embedding_model. Re-upload required.'')
                | Some embed_model \<Rightarrow>
                    if embed_model = [] then
                      Inl (HTTPException 500 ''Document missing embedding_model. Re-upload required.'')
                    else
                      Inr (s\<lparr>documents_store :=
                             AList.update document_id (loaded_entry index metadata embed_model)
                               (documents_store s)\<rparr>))))"

definition ensure_loaded :: "'v env \<Rightarrow> 'v state \<Rightarrow> string \<Rightarrow> exn + 'v state" where
  "ensure_loaded env s document_id =
     (if map_of (documents_store s) document_id = None then
        (case (files s (index_path_of document_id), files s (meta_path_of document_id)) of
           (Some index_blob, Some meta_text) \<Rightarrow>
             (case load_document env s document_id index_blob meta_text of
                Inl e \<Rightarrow> Inl (reraise ''Failed to load document: '' e)
              | Inr s' \<Rightarrow> Inr s')
         | _ \<Rightarrow> Inl (HTTPException 404 ''Document not found''))
      else Inr s)"

definition answer_query :: "'v env \<Rightarrow> 'v document \<Rightarrow> chat_request \<Rightarrow> exn + chat_response" where
  "answer_query env doc request =
     (case retrieve env (req_query request) (doc_index doc) (doc_chunks doc)
             (req_top_k request) (doc_embedding_model doc) of
        Inl e \<Rightarrow> Inl (reraise ''Failed to generate response: '' e)
      | Inr relevant_chunks \<Rightarrow>
          if relevant_chunks = [] then Inl (HTTPException 404 ''No relevant content found'')
          else
            (case snd (generate_answer env (req_query request) relevant_chunks
                         (req_provider request) (req_llm_model request) (req_api_key request)) of
               Inl e \<Rightarrow> Inl (reraise ''Failed to generate response: '' e)
             | Inr answer \<Rightarrow>
                 Inr \<lparr>resp_answer = answer, resp_sources = relevant_chunks,
                      resp_model_used = req_llm_model request,
                      resp_provider = req_provider request\<rparr>))"

definition chat :: "'v env \<Rightarrow> 'v state \<Rightarrow> chat_request \<Rightarrow> (exn + chat_response) \<times> 'v state" where
  "chat env s request =
     (if py_strip (req_query request) = [] then
        (Inl (HTTPException 400 ''Query cannot be empty''), s)
      else if req_provider request = [] \<or> req_provider request \<notin> set [''huggingface'', ''openai''] then
        (Inl (HTTPException 400 provider_detail), s)
      else if req_llm_model request = [] \<or> py_strip (req_llm_model request) = [] then
        (Inl (HTTPException 400 ''LLM model is required''), s)
      else if req_api_key request = [] \<or> py_strip (req_api_key request) = [] then
        (Inl (HTTPException 400 ''API key is required''), s)
      else
        (case ensure_loaded env s (req_document_id request) of
           Inl e \<Rightarrow> (Inl e, s)
         | Inr s' \<Rightarrow>
             (case map_of (documents_store s') (req_document_id request) of
                None \<Rightarrow> (Inl (Exception ''KeyError''), s')
              | Some doc \<Rightarrow> (answer_query env doc request, s'))))"

definition list_documents :: "'v state \<Rightarrow> (string \<times> string \<times> nat \<times> string) list" where
  "list_documents s =
     map (\<lambda>(doc_id, data).
            (doc_id,
             (case doc_filename data of None \<Rightarrow> ''Unknown'' | Some f \<Rightarrow> f),
             length (doc_chunks data),
             doc_embedding_model data))
         (documents_store s)"

definition remove_if_exists :: "string option \<Rightarrow> (string \<rightharpoonup> string) \<Rightarrow> (string \<rightharpoonup> string)" where
  "remove_if_exists path fs =
     (case path of
        None \<Rightarrow> fs
      | Some p \<Rightarrow> if p \<noteq> [] \<and> fs p \<noteq> None then fs(p := None) else fs)"

definition delete_document :: "'v state \<Rightarrow> string \<Rightarrow> (exn + string) \<times> 'v state" where
  "delete_document s document_id =
     (case map_of (documents_store s) document_id of
        None \<Rightarrow> (Inl (HTTPException 404 ''Document not found''), s)
      | Some doc \<Rightarrow>
          let fs = fold remove_if_exists
                     [doc_file_path doc, doc_index_path doc, doc_meta_path doc] (files s)
          in (Inr ''Document deleted'',
              s\<lparr>documents_store := AList.delete document_id (documents_store s), files := fs\<rparr>))"

subsection \<open>A small concrete environment\<close>

fun enc_str :: "string \<Rightarrow> string" where
  "enc_str [] = ''e''"
| "enc_str (c # cs) = CHR ''c'' # c # enc_str cs"

fun dec_str :: "string \<Rightarrow> (string \<times> string) option" where
  "dec_str [] = None"
| "dec_str (x # rest) =
     (if x = CHR ''e'' then Some ([], rest)
      else case rest of
             [] \<Rightarrow> None
           | c # rest' \<Rightarrow> map_option (\<lambda>(s, r). (c # s, r)) (dec_str rest'))"

fun enc_list :: "string list \<Rightarrow> string" where
  "enc_list [] = ''n''"
| "enc_list (s # ss) = enc_str s @ enc_list ss"

fun dec_list :: "string \<Rightarrow> string \<Rightarrow> (string list \<times> string) option" where
  "dec_list cur [] = None"
| "dec_list cur (x # rest) =
     (if x = CHR ''n'' then Some ([], rest)
      else if x = CHR ''e'' then map_option (\<lambda>(ss, r). (cur # ss, r)) (dec_list [] rest)
      else case rest of
             [] \<Rightarrow> None
           | c # rest' \<Rightarrow> dec_list (cur @ [c]) rest')"

definition test_json_dump :: "meta \<Rightarrow> string" where
  "test_json_dump m =
     (case meta_embedding_model m of None \<Rightarrow> ''N'' | Some s \<Rightarrow> CHR ''S'' # enc_str s)
     @ (case meta_chunks m of None \<Rightarrow> ''N'' | Some cs \<Rightarrow> CHR ''S'' # enc_list cs)"

definition test_json_load :: "string \<Rightarrow> string + meta" where
  "test_json_load t =
     (case t of
        [] \<Rightarrow> Inl ''Expecting value''
      | x # rest \<Rightarrow>
          (case (if x = CHR ''N'' then Some (None, rest)
                 else map_option (\<lambda>(s, r). (Some s, r)) (dec_str rest)) of
             None \<Rightarrow> Inl ''Expecting value''
           | Some (model, rest2) \<Rightarrow>
               (case rest2 of
                  [] \<Rightarrow> Inl ''Expecting value''
                | y # rest3 \<Rightarrow>
                    (case (if y = CHR ''N'' then Some (None, rest3)
                           else map_option (\<lambda>(cs, r). (Some cs, r)) (dec_list [] rest3)) of
                       None \<Rightarrow> Inl ''Expecting value''
                     | Some (chunks, r) \<Rightarrow>
                         Inr \<lparr>meta_chunks = chunks, meta_embedding_model = model\<rparr>))))"

definition test_env :: "(string + string option) \<Rightarrow> char env" where
  "test_env reply =
     \<lparr>pdf_pages = (\<lambda>content. if content = ''corrupt'' then Inl ''EOF marker not found''
                               else if content = ''scan'' then Inr [None]
                               else Inr [Some content]),
      tok_encode = byte_encode,
      tok_decode = byte_decode,
      sentence_transformer = (\<lambda>name. if name = ''missing-model'' then Inl ''model not found''
                                       else Inr (\<lambda>t. case t of [] \<Rightarrow> CHR 0x00 | c # _ \<Rightarrow> c)),
      inner_product = (\<lambda>a b. real (of_char a * of_char b)),
      write_index = (\<lambda>rows. rows),
      read_index = (\<lambda>blob. Inr blob),
      json_dump = test_json_dump,
      json_load = test_json_load,
      hf_chat_completion = (\<lambda>system_prompt user_prompt model api_key. reply),
      openai_chat_completion = (\<lambda>system_prompt user_prompt model api_key. reply)\<rparr>"

definition empty_state :: "char state" where
  "empty_state = \<lparr>documents_store = [], files = Map.empty\<rparr>"

definition doc_aligned :: "'v env \<Rightarrow> 'v document \<Rightarrow> bool" where
  "doc_aligned env d =
     (case sentence_transformer env (doc_embedding_model d) of
        Inl e \<Rightarrow> False
      | Inr model \<Rightarrow> doc_embedding_model d \<noteq> [] \<and> doc_index d = map model (doc_chunks d))"

definition disk_aligned :: "'v env \<Rightarrow> (string \<rightharpoonup> string) \<Rightarrow> string \<Rightarrow> bool" where
  "disk_aligned env fs document_id =
     (case fs (index_path_of document_id) of
        None \<Rightarrow> True
      | Some index_blob \<Rightarrow>
          (case fs (meta_path_of document_id) of
             None \<Rightarrow> True
           | Some meta_text \<Rightarrow>
               (case read_index env index_blob of
                  Inl e \<Rightarrow> True
                | Inr index \<Rightarrow>
                    (case json_load env meta_text of
                       Inl e \<Rightarrow> True
                     | Inr metadata \<Rightarrow>
                         (case meta_embedding_model metadata of
                            None \<Rightarrow> True
                          | Some embed_model \<Rightarrow>
                              embed_model = []
                              \<or> doc_aligned env (loaded_entry index metadata embed_model))))))"

definition aligned :: "'v env \<Rightarrow> 'v state \<Rightarrow> bool" where
  "aligned env s \<longleftrightarrow>
     (\<forall>(document_id, d) \<in> set (documents_store s). doc_aligned env d)
     \<and> (\<forall>document_id. disk_aligned env (files s) document_id)"

definition codec_roundtrip :: "'v env \<Rightarrow> bool" where
  "codec_roundtrip env \<longleftrightarrow>
     (\<forall>rows. read_index env (write_index env rows) = Inr rows)
     \<and> (\<forall>m. json_load env (json_dump env m) = Inr m)"

definition fresh_id :: "'v state \<Rightarrow> string \<Rightarrow> bool" where
  "fresh_id s document_id \<longleftrightarrow>
     files s (index_path_of document_id) = None \<and> files s (meta_path_of document_id) = None"

lemma ceil_div_real: "0 < b \<Longrightarrow> ceil_div a b = \<lceil>real_of_int a / real_of_int b\<rceil>"
proof -
  have "\<lceil>real_of_int a / real_of_int b\<rceil> = - \<lfloor>real_of_int (- a) / real_of_int b\<rfloor>"
    by (simp add: ceiling_def)
  also have "\<dots> = - ((- a) div b)"
    by (simp only: floor_divide_of_int_eq)
  finally show ?thesis by (simp add: ceil_div_def)
qed

lemma ceil_div_nonpos: "0 < b \<Longrightarrow> a \<le> 0 \<Longrightarrow> ceil_div a b \<le> 0"
  unfolding ceil_div_def by (simp add: pos_imp_zdiv_nonneg_iff)

lemma ceil_div_step: "0 < b \<Longrightarrow> ceil_div a b = ceil_div (a - b) b + 1"
  unfolding ceil_div_def
proof -
  assume b: "0 < b"
  have "(- (a - b)) div b = (- a + b) div b" by simp
  also have "\<dots> = (- a) div b + 1" using b div_add_self2 [of b "- a"] by simp
  finally show "- (- a div b) = - (- (a - b) div b) + 1" by simp
qed

lemma ceil_div_pos: "0 < b \<Longrightarrow> 0 < a \<Longrightarrow> 0 < ceil_div a b"
  unfolding ceil_div_def
  by (simp add: neg_imp_zdiv_neg_iff div_neg_pos_less0)

lemma upt_0_Suc_map: "map f [0..<Suc n] = f 0 # map (\<lambda>i. f (Suc i)) [0..<n]"
proof -
  have "[0..<Suc n] = 0 # map Suc [0..<n]"
    by (simp only: map_Suc_upt upt_conv_Cons [of 0 "Suc n"] zero_less_Suc)
  then show ?thesis by (simp add: comp_def)
qed

lemma chunk_loop_closed:
  assumes "overlap_size < max_chunk_size"
  shows "chunk_loop decode tokens max_chunk_size overlap_size start chunks =
           Some (chunks @ map (\<lambda>i. decode (window tokens max_chunk_size overlap_size start i))
              [0..<nat (ceil_div (int (length tokens) - start) (max_chunk_size - overlap_size))])"
proof (induction "nat (int (length tokens) - start)" arbitrary: start chunks rule: less_induct)
  case less
  let ?s = "max_chunk_size - overlap_size"
  let ?N = "int (length tokens)"
  have s: "0 < ?s" using assms by simp
  show ?case
  proof (cases "start < ?N")
    case False
    then have "nat (ceil_div (?N - start) ?s) = 0"
      using ceil_div_nonpos [OF s, of "?N - start"] by simp
    with False show ?thesis by (simp add: chunk_loop.simps)
  next
    case True
    have m: "nat (?N - (start + ?s)) < nat (?N - start)" using True s by linarith
    have k: "nat (ceil_div (?N - start) ?s) = Suc (nat (ceil_div (?N - (start + ?s)) ?s))"
    proof -
      have e: "ceil_div (?N - start) ?s = ceil_div (?N - (start + ?s)) ?s + 1"
        using ceil_div_step [OF s, of "?N - start"] by (simp add: algebra_simps)
      have "0 < ceil_div (?N - start) ?s" using ceil_div_pos [OF s] True by simp
      with e show ?thesis by linarith
    qed
    have w: "window tokens max_chunk_size overlap_size (start + ?s) i
               = window tokens max_chunk_size overlap_size start (Suc i)" for i
      by (simp add: window_def algebra_simps)
    have w0: "py_slice tokens start (min (start + max_chunk_size) ?N)
               = window tokens max_chunk_size overlap_size start 0"
      by (simp add: window_def)
    show ?thesis
      apply (subst chunk_loop.simps)
      apply (simp only: True if_True Let_def less.hyps [OF m] k upt_0_Suc_map w w0)
      apply simp
      done
  qed
qed




lemma less_ceil_div: "0 < b \<Longrightarrow> int i < ceil_div a b \<longleftrightarrow> int i * b < a"
proof -
  assume b: "0 < b"
  have "int i < ceil_div a b \<longleftrightarrow> real_of_int (int i) < real_of_int a / real_of_int b"
    by (simp only: ceil_div_real [OF b] less_ceiling_iff)
  also have "\<dots> \<longleftrightarrow> real_of_int (int i) * real_of_int b < real_of_int a"
    using b by (simp add: pos_less_divide_eq)
  also have "\<dots> \<longleftrightarrow> int i * b < a"
    by (simp only: of_int_mult [symmetric] of_int_less_iff)
  finally show ?thesis .
qed

lemma chunk_loop_diverges:
  assumes "chunk_loop decode tokens max_chunk_size overlap_size start chunks = Some y"
  shows "\<not> (max_chunk_size \<le> overlap_size \<and> start < int (length tokens))"
proof (rule chunk_loop.raw_induct
    [where P = "\<lambda>d t m ov s c y. \<not> (m \<le> ov \<and> s < int (length t))", OF _ assms])
  fix f and d :: "nat list \<Rightarrow> 'a" and t m ov s c y
  assume ih: "\<And>d t m ov s c y. f d t m ov s c = Some y \<Longrightarrow> \<not> (m \<le> ov \<and> s < int (length t))"
    and st: "(if s < int (length t)
          then let stop = min (s + m) (int (length t))
               in f d t m ov (s + (m - ov)) (c @ [d (py_slice t s stop)])
          else Some c) = Some y"
  show "\<not> (m \<le> ov \<and> s < int (length t))"
  proof
    assume a: "m \<le> ov \<and> s < int (length t)"
    then have "f d t m ov (s + (m - ov)) (c @ [d (py_slice t s (min (s + m) (int (length t))))]) = Some y"
      using st by (simp add: Let_def)
    from ih [OF this] a show False by simp
  qed
qed

lemma py_slice_nonneg:
  assumes "0 \<le> b" "0 \<le> e"
  shows "py_slice xs b e = take (nat e - nat b) (drop (nat b) xs)"
proof (cases "b < int (length xs)")
  case True
  with assms show ?thesis
    by (simp add: py_slice_def Let_def min_def nat_diff_distrib')
next
  case False
  with assms show ?thesis
    by (simp add: py_slice_def Let_def min_def)
qed

lemma window_take_drop:
  assumes "0 \<le> overlap_size" "overlap_size < max_chunk_size"
  shows "window tokens max_chunk_size overlap_size 0 i =
           take (nat max_chunk_size) (drop (i * nat (max_chunk_size - overlap_size)) tokens)"
proof -
  define b where "b = int i * (max_chunk_size - overlap_size)"
  have b0: "0 \<le> b" using assms by (simp add: b_def)
  have nb: "nat b = i * nat (max_chunk_size - overlap_size)"
    using assms by (simp add: b_def nat_mult_distrib)
  have e0: "0 \<le> min (b + max_chunk_size) (int (length tokens))" using b0 assms by simp
  have "window tokens max_chunk_size overlap_size 0 i
      = py_slice tokens b (min (b + max_chunk_size) (int (length tokens)))"
    by (simp add: window_def b_def Let_def)
  also have "\<dots> = take (nat (min (b + max_chunk_size) (int (length tokens))) - nat b) (drop (nat b) tokens)"
    by (rule py_slice_nonneg [OF b0 e0])
  also have "\<dots> = take (nat max_chunk_size) (drop (nat b) tokens)"
    using b0 assms by (cases "b + max_chunk_size \<le> int (length tokens)") (simp_all add: min_def nat_add_distrib)
  finally show ?thesis by (simp add: nb)
qed


lemma chunk_text_closed:
  assumes "overlap_size < max_chunk_size"
  shows "chunk_text encode decode text max_chunk_size overlap_size =
     Some (map (\<lambda>i. decode (window (encode text) max_chunk_size overlap_size 0 i))
        [0..<nat (ceil_div (int (length (encode text))) (max_chunk_size - overlap_size))])"
  unfolding chunk_text_def by (simp add: chunk_loop_closed [OF assms])

lemma chunk_windows_closed:
  assumes "overlap_size < max_chunk_size"
  shows "chunk_windows tokens max_chunk_size overlap_size =
     Some (map (window tokens max_chunk_size overlap_size 0)
        [0..<nat (ceil_div (int (length tokens)) (max_chunk_size - overlap_size))])"
  unfolding chunk_windows_def by (simp add: chunk_loop_closed [OF assms])

lemma ceil_div_nonneg: "0 < b \<Longrightarrow> 0 \<le> a \<Longrightarrow> 0 \<le> ceil_div a b"
  using ceil_div_pos [of b a] by (cases "a = 0") (simp_all add: ceil_div_def)

text \<open>C3\<close>
theorem chunk_text_count:
  assumes "overlap_size < max_chunk_size"
  shows "\<exists>chunks. chunk_text encode decode text max_chunk_size overlap_size = Some chunks
    \<and> int (length chunks) =
        \<lceil>real (length (encode text)) / real_of_int (max_chunk_size - overlap_size)\<rceil>
    \<and> (0 < length (encode text)
        \<and> int (length (encode text)) \<le> max_chunk_size - overlap_size
        \<and> int (length (encode text)) \<le> max_chunk_size
       \<longrightarrow> chunks = [decode (encode text)])"
proof -
  let ?N = "int (length (encode text))"
  let ?s = "max_chunk_size - overlap_size"
  let ?k = "nat (ceil_div ?N ?s)"
  let ?chunks = "map (\<lambda>i. decode (window (encode text) max_chunk_size overlap_size 0 i)) [0..<?k]"
  have s: "0 < ?s" using assms by simp
  have c: "chunk_text encode decode text max_chunk_size overlap_size = Some ?chunks"
    by (rule chunk_text_closed [OF assms])
  have "int (length ?chunks) = ceil_div ?N ?s"
    using ceil_div_nonneg [OF s, of ?N] by simp
  also have "\<dots> = \<lceil>real (length (encode text)) / real_of_int ?s\<rceil>"
    using ceil_div_real [OF s, of ?N] by simp
  finally have n: "int (length ?chunks) = \<lceil>real (length (encode text)) / real_of_int ?s\<rceil>" .
  have one: "?chunks = [decode (encode text)]"
    if h: "0 < length (encode text)" "?N \<le> ?s" "?N \<le> max_chunk_size"
  proof -
    have "\<not> int 1 < ceil_div ?N ?s" using less_ceil_div [OF s, of 1 ?N] h by simp
    moreover have "int 0 < ceil_div ?N ?s" using less_ceil_div [OF s, of 0 ?N] h by simp
    ultimately have k: "?k = Suc 0" by linarith
    have "window (encode text) max_chunk_size overlap_size 0 0 = encode text"
      using h by (simp add: window_def py_slice_def Let_def min_def)
    then show ?thesis by (simp add: k)
  qed
  show ?thesis
  proof (intro exI [of _ ?chunks] conjI impI)
    show "chunk_text encode decode text max_chunk_size overlap_size = Some ?chunks" by (rule c)
    show "int (length ?chunks) = \<lceil>real (length (encode text)) / real_of_int ?s\<rceil>" by (rule n)
    assume "0 < length (encode text) \<and> ?N \<le> ?s \<and> ?N \<le> max_chunk_size"
    then show "?chunks = [decode (encode text)]" using one by simp
  qed
qed

theorem chunk_text_count_witness:
  "(2::int) < 5 \<and> (\<exists>chunks. chunk_text byte_encode byte_decode ''abcdefghij'' 5 2 = Some chunks
      \<and> length chunks = 4)
   \<and> chunk_text byte_encode byte_decode ''ab'' 5 2 = Some [byte_decode (byte_encode ''ab'')]"
proof -
  have h: "(2::int) < 5" by simp
  obtain chunks where c: "chunk_text byte_encode byte_decode ''abcdefghij'' 5 2 = Some chunks"
    and n: "int (length chunks) = \<lceil>real (length (byte_encode ''abcdefghij'')) / real_of_int (5 - 2)\<rceil>"
    using chunk_text_count [OF h, of byte_encode byte_decode "''abcdefghij''"] by blast
  have "\<lceil>real (length (byte_encode ''abcdefghij'')) / real_of_int (5 - 2)\<rceil> = 4"
    by (simp add: byte_encode_def ceiling_eq_iff)
  with n have "length chunks = 4" by simp
  moreover have "chunk_text byte_encode byte_decode ''ab'' 5 2 = Some [byte_decode (byte_encode ''ab'')]"
    using chunk_text_count [OF h, of byte_encode byte_decode "''ab''"]
    by (auto simp: byte_encode_def)
  ultimately show ?thesis using c h by blast
qed

theorem chunk_text_count_counterexample:
  "length (byte_encode ''abcdefghij'') = 10
   \<and> map_option length (chunk_text byte_encode byte_decode ''abcdefghij'' 5 2) = Some 4
   \<and> \<lceil>real_of_int (10 - 2) / real_of_int (5 - 2)\<rceil> = (3::int)
   \<and> length (byte_encode ''abc'') = 3
   \<and> map_option length (chunk_text byte_encode byte_decode ''abc'' 5 4) = Some 3
   \<and> chunk_text byte_encode byte_decode [] 5 2 = Some []"
  by (simp add: chunk_text_def chunk_loop.simps byte_encode_def ceiling_eq_iff py_slice_def)

text \<open>C4\<close>
theorem chunk_text_termination:
  "(overlap_size < max_chunk_size \<longrightarrow>
      (\<exists>chunks. chunk_text encode decode text max_chunk_size overlap_size = Some chunks))
   \<and> (max_chunk_size \<le> overlap_size \<longrightarrow>
      chunk_text encode decode text max_chunk_size overlap_size =
        (if encode text = [] then Some [] else None))"
proof (intro conjI impI)
  assume "overlap_size < max_chunk_size"
  then show "\<exists>chunks. chunk_text encode decode text max_chunk_size overlap_size = Some chunks"
    by (simp add: chunk_text_closed)
next
  assume le: "max_chunk_size \<le> overlap_size"
  show "chunk_text encode decode text max_chunk_size overlap_size =
        (if encode text = [] then Some [] else None)"
  proof (cases "encode text = []")
    case True
    then show ?thesis by (simp add: chunk_text_def chunk_loop.simps)
  next
    case False
    then have "0 < int (length (encode text))" by simp
    with le chunk_loop_diverges [of decode "encode text" max_chunk_size overlap_size 0 "[]"]
    have "chunk_loop decode (encode text) max_chunk_size overlap_size 0 [] = None"
      by (cases "chunk_loop decode (encode text) max_chunk_size overlap_size 0 []") auto
    with False show ?thesis by (simp add: chunk_text_def)
  qed
qed

theorem chunk_text_termination_witness:
  "chunk_text byte_encode byte_decode ''abc'' 5 2 \<noteq> None
   \<and> chunk_text byte_encode byte_decode ''abc'' 2 2 = None
   \<and> chunk_text byte_encode byte_decode [] 2 2 = Some []"
  using chunk_text_termination [of 2 5 byte_encode byte_decode "''abc''"]
    chunk_text_termination [of 2 2 byte_encode byte_decode "''abc''"]
    chunk_text_termination [of 2 2 byte_encode byte_decode "[]"]
  by (auto simp: byte_encode_def)

theorem chunk_text_no_config_error_counterexample:
  "chunk_text byte_encode byte_decode ''a'' 80 80 = None
   \<and> chunk_text byte_encode byte_decode ''a'' 80 500 = None"
proof -
  have "chunk_loop byte_decode (byte_encode ''a'') 80 v 0 [] = None" if "80 \<le> v" for v :: int
    using chunk_loop_diverges [of byte_decode "byte_encode ''a''" 80 v 0 "[]"] that
    by (cases "chunk_loop byte_decode (byte_encode ''a'') 80 v 0 []") (auto simp: byte_encode_def)
  then show ?thesis by (simp add: chunk_text_def)
qed

lemma overlap_windows:
  assumes "M = S + ov" "i * S + M \<le> length xs"
  shows "overlap_by ov (take M (drop (i * S) xs)) (take M (drop (Suc i * S) xs))"
proof -
  have la: "length (take M (drop (i * S) xs)) = M" using assms by simp
  have lb: "ov \<le> length (take M (drop (Suc i * S) xs))" using assms by simp
  have "drop (M - ov) (take M (drop (i * S) xs)) = take ov (drop (S + i * S) xs)"
    using assms by (simp add: drop_take)
  moreover have "take ov (take M (drop (Suc i * S) xs)) = take ov (drop (S + i * S) xs)"
    using assms by (simp add: min_def)
  ultimately show ?thesis
    unfolding overlap_by_def using la lb assms by simp
qed

lemma window_count_iff:
  assumes "0 \<le> overlap_size" "overlap_size < max_chunk_size"
  shows "i < nat (ceil_div (int (length tokens)) (max_chunk_size - overlap_size))
     \<longleftrightarrow> i * nat (max_chunk_size - overlap_size) < length tokens"
proof -
  let ?s = "max_chunk_size - overlap_size"
  have s: "0 < ?s" using assms by simp
  have "i < nat (ceil_div (int (length tokens)) ?s) \<longleftrightarrow> int i < ceil_div (int (length tokens)) ?s"
    by linarith
  also have "\<dots> \<longleftrightarrow> int i * ?s < int (length tokens)" by (rule less_ceil_div [OF s])
  also have "\<dots> \<longleftrightarrow> int (i * nat ?s) < int (length tokens)" using s by simp
  also have "\<dots> \<longleftrightarrow> i * nat ?s < length tokens" by (simp only: of_nat_less_iff)
  finally show ?thesis .
qed

text \<open>C9\<close>
theorem chunk_text_windows:
  assumes "0 \<le> overlap_size" "overlap_size < max_chunk_size"
  shows "\<exists>ws. chunk_windows (encode text) max_chunk_size overlap_size = Some ws
    \<and> chunk_text encode decode text max_chunk_size overlap_size = Some (map decode ws)
    \<and> (\<forall>w \<in> set ws. int (length w) \<le> max_chunk_size)
    \<and> (\<forall>i. Suc i < length ws \<longrightarrow> int (length (ws ! i)) = max_chunk_size \<longrightarrow>
          overlap_by (nat overlap_size) (ws ! i) (ws ! Suc i))
    \<and> (2 * overlap_size \<le> max_chunk_size \<longrightarrow>
          (\<forall>i. Suc (Suc i) < length ws \<longrightarrow>
             overlap_by (nat overlap_size) (ws ! i) (ws ! Suc i)))"
proof -
  let ?toks = "encode text"
  let ?s = "max_chunk_size - overlap_size"
  let ?k = "nat (ceil_div (int (length ?toks)) ?s)"
  let ?M = "nat max_chunk_size" and ?S = "nat ?s" and ?O = "nat overlap_size"
  let ?w = "\<lambda>i. take ?M (drop (i * ?S) ?toks)"
  let ?ws = "map ?w [0..<?k]"
  have lt: "overlap_size < max_chunk_size" by (rule assms(2))
  have MSO: "?M = ?S + ?O" using assms by linarith
  have weq: "window ?toks max_chunk_size overlap_size 0 = ?w"
    by (rule ext) (rule window_take_drop [OF assms])
  have cw: "chunk_windows ?toks max_chunk_size overlap_size = Some ?ws"
    by (simp only: chunk_windows_closed [OF lt] weq)
  have ct: "chunk_text encode decode text max_chunk_size overlap_size = Some (map decode ?ws)"
    by (simp add: chunk_text_closed [OF lt] weq [symmetric] comp_def)
  have len: "\<forall>w \<in> set ?ws. int (length w) \<le> max_chunk_size"
    using assms by auto
  have kiff: "\<And>i. i < ?k \<longleftrightarrow> i * ?S < length ?toks"
    by (rule window_count_iff [OF assms])
  have full: "overlap_by ?O (?ws ! i) (?ws ! Suc i)"
    if a: "Suc i < length ?ws" and b: "int (length (?ws ! i)) = max_chunk_size" for i
  proof -
    have i: "i < ?k" and si: "Suc i < ?k" using a by simp_all
    have "length (?w i) = ?M" using b i by simp
    then have "i * ?S + ?M \<le> length ?toks" using assms by simp
    from overlap_windows [OF MSO this] show ?thesis using i si by simp
  qed
  have small: "overlap_by ?O (?ws ! i) (?ws ! Suc i)"
    if h: "2 * overlap_size \<le> max_chunk_size" and a: "Suc (Suc i) < length ?ws" for i
  proof -
    have i: "i < ?k" and si: "Suc i < ?k" and ssi: "Suc (Suc i) < ?k" using a by simp_all
    have "Suc (Suc i) * ?S < length ?toks" using ssi kiff by blast
    moreover have "?M \<le> 2 * ?S" using h assms by linarith
    ultimately have "i * ?S + ?M \<le> length ?toks" by simp
    from overlap_windows [OF MSO this] show ?thesis using i si by simp
  qed
  show ?thesis
  proof (intro exI [of _ ?ws] conjI impI allI)
    show "chunk_windows ?toks max_chunk_size overlap_size = Some ?ws" by (rule cw)
    show "chunk_text encode decode text max_chunk_size overlap_size = Some (map decode ?ws)" by (rule ct)
    show "\<forall>w \<in> set ?ws. int (length w) \<le> max_chunk_size" by (rule len)
  next
    fix i assume "Suc i < length ?ws" "int (length (?ws ! i)) = max_chunk_size"
    then show "overlap_by ?O (?ws ! i) (?ws ! Suc i)" by (rule full)
  next
    fix i assume "2 * overlap_size \<le> max_chunk_size" "Suc (Suc i) < length ?ws"
    then show "overlap_by ?O (?ws ! i) (?ws ! Suc i)" by (rule small)
  qed
qed

theorem chunk_text_windows_counterexample:
  "chunk_windows (byte_encode ''abcde'') 5 4 =
     Some [[97, 98, 99, 100, 101], [98, 99, 100, 101], [99, 100, 101], [100, 101], [101]]
   \<and> \<not> overlap_by 4 [98, 99, 100, 101 :: nat] [99, 100, 101]"
  by (simp add: chunk_windows_def chunk_loop.simps byte_encode_def py_slice_def overlap_by_def)

theorem chunk_text_windows_witness:
  "(0::int) \<le> 2 \<and> (2::int) < 5
   \<and> chunk_windows (byte_encode ''abcdefghij'') 5 2 =
       Some [[97, 98, 99, 100, 101], [100, 101, 102, 103, 104], [103, 104, 105, 106], [106]]
   \<and> overlap_by 2 [97, 98, 99, 100, 101 :: nat] [100, 101, 102, 103, 104]
   \<and> overlap_by 2 [100, 101, 102, 103, 104 :: nat] [103, 104, 105, 106]"
proof -
  have h0: "(0::int) \<le> 2" and h1: "(2::int) < 5" by simp_all
  have e: "chunk_windows (byte_encode ''abcdefghij'') 5 2 =
       Some [[97, 98, 99, 100, 101], [100, 101, 102, 103, 104], [103, 104, 105, 106], [106]]"
    by (simp add: chunk_windows_def chunk_loop.simps byte_encode_def py_slice_def)
  from chunk_text_windows [OF h0 h1, of byte_encode "''abcdefghij''" byte_decode]
  obtain ws where w: "chunk_windows (byte_encode ''abcdefghij'') 5 2 = Some ws"
    and f: "\<forall>i. Suc i < length ws \<longrightarrow> int (length (ws ! i)) = 5 \<longrightarrow> overlap_by (nat 2) (ws ! i) (ws ! Suc i)"
    by blast
  from w e have ws: "ws = [[97, 98, 99, 100, 101], [100, 101, 102, 103, 104], [103, 104, 105, 106], [106]]"
    by simp
  from f [rule_format, of 0] f [rule_format, of 1] ws
  have "overlap_by 2 [97, 98, 99, 100, 101 :: nat] [100, 101, 102, 103, 104]"
    and "overlap_by 2 [100, 101, 102, 103, 104 :: nat] [103, 104, 105, 106]"
    by simp_all
  with e h0 h1 show ?thesis by simp
qed

lemma lookup_all_rows:
  assumes "\<forall>i \<in> set rows. i < length chunks"
  shows "lookup_all chunks (map int rows @ replicate m (- 1)) = Inr (map ((!) chunks) rows)"
  using assms
proof (induction rows)
  case Nil
  show ?case by (induction m) simp_all
next
  case (Cons i rows)
  then show ?case by (simp add: Let_def)
qed

lemma ranked_rows_props:
  "mset (ranked_rows ip rows q) = mset [0..<length rows]"
  "distinct (ranked_rows ip rows q)"
  "set (ranked_rows ip rows q) = {..<length rows}"
  "length (ranked_rows ip rows q) = length rows"
  "sorted_wrt (\<lambda>i j. ip (rows ! j) q \<le> ip (rows ! i) q) (ranked_rows ip rows q)"
proof -
  show "mset (ranked_rows ip rows q) = mset [0..<length rows]"
    by (simp add: ranked_rows_def)
  show "distinct (ranked_rows ip rows q)"
    by (simp add: ranked_rows_def)
  show "set (ranked_rows ip rows q) = {..<length rows}"
    by (auto simp: ranked_rows_def)
  show "length (ranked_rows ip rows q) = length rows"
    by (simp add: ranked_rows_def)
  have "sorted (map (\<lambda>i. - ip (rows ! i) q) (ranked_rows ip rows q))"
    unfolding ranked_rows_def by (rule sorted_sort_key)
  then show "sorted_wrt (\<lambda>i j. ip (rows ! j) q \<le> ip (rows ! i) q) (ranked_rows ip rows q)"
    by (simp add: sorted_map)
qed

text \<open>C5\<close>
theorem retrieve_top_k:
  assumes "embedding_model \<noteq> []"
    and "sentence_transformer env embedding_model = Inr model"
    and "length index = length chunks"
    and "0 < top_k"
  shows "\<exists>rows. retrieve env query index chunks top_k embedding_model = Inr (map ((!) chunks) rows)
    \<and> length rows = min (nat top_k) (length chunks)
    \<and> distinct rows \<and> set rows \<subseteq> {..<length chunks}
    \<and> sorted_wrt (\<lambda>i j. inner_product env (index ! j) (model query)
                          \<le> inner_product env (index ! i) (model query)) rows"
proof -
  let ?ip = "inner_product env" and ?q = "model query"
  let ?rows = "take (nat top_k) (ranked_rows ?ip index ?q)"
  have sub: "set ?rows \<subseteq> {..<length chunks}"
    using set_take_subset [of "nat top_k" "ranked_rows ?ip index ?q"]
    by (simp add: ranked_rows_props(3) assms(3))
  then have lt: "\<forall>i \<in> set ?rows. i < length chunks" by auto
  have e: "embed_texts env [query] embedding_model = Inr [?q]"
    using assms(1,2) by (simp add: embed_texts_def get_embedding_model_def)
  have s: "index_search ?ip index [?q] top_k =
      Inr [map int ?rows @ replicate (nat top_k - length index) (- 1)]"
    using assms(4) by (simp add: index_search_def)
  have r: "retrieve env query index chunks top_k embedding_model = Inr (map ((!) chunks) ?rows)"
    using assms(1) by (simp add: retrieve_def e s lookup_all_rows [OF lt])
  have l: "length ?rows = min (nat top_k) (length chunks)"
    by (simp add: ranked_rows_props(4) assms(3) min.commute)
  have d: "distinct ?rows" by (simp add: ranked_rows_props(2))
  have o: "sorted_wrt (\<lambda>i j. ?ip (index ! j) ?q \<le> ?ip (index ! i) ?q) ?rows"
    by (rule sorted_wrt_take) (rule ranked_rows_props(5))
  from r l d sub o show ?thesis by blast
qed

text \<open>C8\<close>
theorem generate_answer_errors:
  "(provider \<notin> {''huggingface'', ''openai''} \<or> llm_model = [] \<or> api_key = [] \<longrightarrow>
      (\<exists>msg. generate_answer env query ctx provider llm_model api_key = ([], Inl (ValueError msg))))
   \<and> (provider \<in> {''huggingface'', ''openai''} \<and> llm_model \<noteq> [] \<and> api_key \<noteq> [] \<longrightarrow>
      (\<forall>e. (if provider = ''openai'' then openai_chat_completion env else hf_chat_completion env)
               system_prompt_text (user_prompt_text ctx query) llm_model api_key = Inl e \<longrightarrow>
         snd (generate_answer env query ctx provider llm_model api_key) =
           Inl (if py_contains ''rate limit'' (py_lower e)
                  then Exception ''Rate limit exceeded. Try again later.''
                else if py_contains ''model'' (py_lower e)
                  then Exception (''Model error: '' @ e)
                else Exception (''Failed to generate answer: '' @ e))))"
  by (auto simp: generate_answer_def classify_failure_def generate_remote_def Let_def)

lemma dec_str_enc_str: "dec_str (enc_str s @ r) = Some (s, r)"
  by (induction s) simp_all

lemma dec_list_enc_str:
  "dec_list cur (enc_str s @ t) = map_option (\<lambda>(ss, r). ((cur @ s) # ss, r)) (dec_list [] t)"
  by (induction s arbitrary: cur) simp_all

lemma dec_list_enc_list: "dec_list [] (enc_list ss @ r) = Some (ss, r)"
  by (induction ss) (simp_all add: dec_list_enc_str)

lemma test_json_roundtrip: "test_json_load (test_json_dump m) = Inr m"
proof (cases "meta_embedding_model m"; cases "meta_chunks m")
  assume "meta_embedding_model m = None" "meta_chunks m = None"
  then show ?thesis by (simp add: test_json_load_def test_json_dump_def)
next
  fix cs assume "meta_embedding_model m = None" "meta_chunks m = Some cs"
  then show ?thesis
    using dec_list_enc_list [of cs "[]"] by (simp add: test_json_load_def test_json_dump_def)
next
  fix s assume "meta_embedding_model m = Some s" "meta_chunks m = None"
  then show ?thesis
    using dec_str_enc_str [of s "''N''"] by (simp add: test_json_load_def test_json_dump_def)
next
  fix s cs assume "meta_embedding_model m = Some s" "meta_chunks m = Some cs"
  then show ?thesis
    using dec_str_enc_str [of s "CHR ''S'' # enc_list cs"] dec_list_enc_list [of cs "[]"]
    by (simp add: test_json_load_def test_json_dump_def)
qed

lemma path_join_last: "b \<noteq> [] \<Longrightarrow> last (path_join a b) = last b"
  by (simp add: path_join_def)

lemma index_path_inj: "index_path_of a = index_path_of b \<Longrightarrow> a = b"
  by (auto simp: index_path_of_def path_join_def INDEX_DIR_def py_endswith_def split: if_splits)

lemma meta_path_inj: "meta_path_of a = meta_path_of b \<Longrightarrow> a = b"
  by (auto simp: meta_path_of_def path_join_def INDEX_DIR_def py_endswith_def split: if_splits)

lemma index_meta_path_neq: "index_path_of a \<noteq> meta_path_of b"
proof
  assume "index_path_of a = meta_path_of b"
  then have "last (index_path_of a) = last (meta_path_of b)" by simp
  then show False by (simp add: index_path_of_def meta_path_of_def path_join_last)
qed

lemma file_index_path_neq: "file_path_of a \<noteq> index_path_of b"
proof
  assume "file_path_of a = index_path_of b"
  then have "last (file_path_of a) = last (index_path_of b)" by simp
  then show False by (simp add: index_path_of_def file_path_of_def path_join_last)
qed

lemma file_meta_path_neq: "file_path_of a \<noteq> meta_path_of b"
proof
  assume "file_path_of a = meta_path_of b"
  then have "last (file_path_of a) = last (meta_path_of b)" by simp
  then show False by (simp add: meta_path_of_def file_path_of_def path_join_last)
qed


lemma chunk_text_default: "\<exists>chunks. chunk_text e d text 500 80 = Some chunks"
  by (simp add: chunk_text_closed)

lemma persist_and_register_outcome:
  assumes "persist_and_register env s filename embed_model document_id file_path chunks index fault = (r, s')"
  shows "(\<exists>e. r = Inl (Exception e) \<and> documents_store s' = documents_store s
            \<and> (files s' = files s
                \<or> files s' = (files s)(index_path_of document_id \<mapsto> write_index env index)))
       \<or> ((\<exists>resp. r = Inr resp)
            \<and> documents_store s' =
                 AList.update document_id
                   \<lparr>doc_filename = Some filename, doc_file_path = Some file_path,
                    doc_index_path = Some (index_path_of document_id),
                    doc_meta_path = Some (meta_path_of document_id),
                    doc_chunks = chunks, doc_index = index,
                    doc_embedding_model = embed_model\<rparr> (documents_store s)
            \<and> files s' = (files s)(index_path_of document_id \<mapsto> write_index env index,
                 meta_path_of document_id \<mapsto>
                   json_dump env \<lparr>meta_chunks = Some chunks, meta_embedding_model = Some embed_model\<rparr>))"
  using assms
  by (cases fault) (auto simp: persist_and_register_def Let_def)

lemma upload_process_outcome:
  assumes "upload_process env s filename embed_model document_id file_path fault = Some (r, s')"
  shows "(\<exists>e. r = Inl e \<and> s' = s)
       \<or> (\<exists>chunks model. chunks \<noteq> [] \<and> embed_model \<noteq> []
             \<and> sentence_transformer env embed_model = Inr model
             \<and> persist_and_register env s filename embed_model document_id file_path chunks
                   (map model chunks) fault = (r, s'))"
  using assms
  by (auto simp: upload_process_def embed_texts_def get_embedding_model_def
           split: sum.splits if_splits option.splits)

lemma upload_process_total:
  "\<exists>x. upload_process env s filename embed_model document_id file_path fault = Some x"
proof (cases "extract_text_from_pdf env (files s) file_path")
  case (Inl e)
  then show ?thesis by (simp add: upload_process_def)
next
  case (Inr extracted)
  obtain chunks where c: "chunk_text (tok_encode env) (tok_decode env) extracted 500 80 = Some chunks"
    using chunk_text_default by blast
  show ?thesis
    by (cases "embed_texts env chunks embed_model") (simp_all add: upload_process_def Inr c)
qed

lemma upload_pdf_total:
  "\<exists>x. upload_pdf env s filename content embedding_model document_id fault = Some x"
proof -
  obtain x where "upload_process env (s\<lparr>files := (files s)(file_path_of document_id \<mapsto> content)\<rparr>)
      filename (py_strip embedding_model) document_id (file_path_of document_id) fault = Some x"
    using upload_process_total by blast
  then show ?thesis
    by (cases fault) (simp_all add: upload_pdf_def Let_def)
qed

lemma upload_handler_Inr:
  "upload_handler p x = (Inr resp, s') \<longleftrightarrow> x = (Inr resp, s')"
  by (cases "(p, x)" rule: upload_handler.cases) auto

lemma upload_handler_Inl:
  assumes "upload_handler p (Inl e, s0) = (r, s')"
  shows "\<exists>e'. r = Inl e' \<and> (s' = s0 \<and> (\<exists>c d. e = HTTPException c d \<and> e' = e)
           \<or> s' = remove_file p s0 \<and> (\<forall>c d. e \<noteq> HTTPException c d))"
  using assms by (cases e) auto

lemma upload_pdf_outcome:
  assumes "upload_pdf env s filename content embedding_model document_id fault = Some (r, s')"
  shows "(\<exists>e. r = Inl e \<and> documents_store s' = documents_store s
            \<and> files s' (meta_path_of document_id) = files s (meta_path_of document_id)
            \<and> (\<forall>p. p \<noteq> file_path_of document_id \<longrightarrow> p \<noteq> index_path_of document_id \<longrightarrow>
                   files s' p = files s p))
       \<or> (\<exists>resp chunks model. r = Inr resp \<and> chunks \<noteq> [] \<and> py_strip embedding_model \<noteq> []
            \<and> sentence_transformer env (py_strip embedding_model) = Inr model
            \<and> documents_store s' =
                 AList.update document_id
                   \<lparr>doc_filename = Some filename, doc_file_path = Some (file_path_of document_id),
                    doc_index_path = Some (index_path_of document_id),
                    doc_meta_path = Some (meta_path_of document_id),
                    doc_chunks = chunks, doc_index = map model chunks,
                    doc_embedding_model = py_strip embedding_model\<rparr> (documents_store s)
            \<and> files s' = (files s)(file_path_of document_id \<mapsto> content,
                 index_path_of document_id \<mapsto> write_index env (map model chunks),
                 meta_path_of document_id \<mapsto>
                   json_dump env \<lparr>meta_chunks = Some chunks,
                     meta_embedding_model = Some (py_strip embedding_model)\<rparr>))"
proof (cases "\<not> py_endswith (py_lower filename) ''.pdf''
              \<or> embedding_model = [] \<or> py_strip embedding_model = [] \<or> (\<exists>e. fault = SaveFails e)")
  case True
  with assms show ?thesis by (auto simp: upload_pdf_def split: if_splits)
next
  case False
  let ?fp = "file_path_of document_id" and ?em = "py_strip embedding_model"
  let ?s0 = "s\<lparr>files := (files s)(?fp \<mapsto> content)\<rparr>"
  from False assms
  have "map_option (upload_handler ?fp) (upload_process env ?s0 filename ?em document_id ?fp fault)
          = Some (r, s')"
    by (cases fault) (simp_all add: upload_pdf_def Let_def)
  then obtain r0 s1 where up: "upload_process env ?s0 filename ?em document_id ?fp fault = Some (r0, s1)"
    and h: "upload_handler ?fp (r0, s1) = (r, s')"
    by auto
  have neq: "?fp \<noteq> meta_path_of document_id" "?fp \<noteq> index_path_of document_id"
    "index_path_of document_id \<noteq> meta_path_of document_id"
    by (rule file_meta_path_neq, rule file_index_path_neq, rule index_meta_path_neq)
  from upload_process_outcome [OF up] show ?thesis
  proof (elim disjE exE conjE)
    fix e assume e: "r0 = Inl e" "s1 = ?s0"
    from upload_handler_Inl [OF h [unfolded e(1)]] e(2) neq show ?thesis
      by (auto simp: remove_file_def)
  next
    fix chunks model
    assume c: "chunks \<noteq> []" "?em \<noteq> []" "sentence_transformer env ?em = Inr model"
      and p: "persist_and_register env ?s0 filename ?em document_id ?fp chunks (map model chunks) fault
                = (r0, s1)"
    from persist_and_register_outcome [OF p] show ?thesis
    proof (elim disjE exE conjE)
      fix e assume "r0 = Inl (Exception e)" "documents_store s1 = documents_store ?s0"
        "files s1 = files ?s0"
      with h neq show ?thesis by (auto simp: remove_file_def)
    next
      fix e assume "r0 = Inl (Exception e)" "documents_store s1 = documents_store ?s0"
        "files s1 = (files ?s0)(index_path_of document_id \<mapsto> write_index env (map model chunks))"
      with h neq show ?thesis by (auto simp: remove_file_def)
    next
      fix resp assume "r0 = Inr resp" and
        "documents_store s1 = AList.update document_id
                   \<lparr>doc_filename = Some filename, doc_file_path = Some ?fp,
                    doc_index_path = Some (index_path_of document_id),
                    doc_meta_path = Some (meta_path_of document_id),
                    doc_chunks = chunks, doc_index = map model chunks,
                    doc_embedding_model = ?em\<rparr> (documents_store ?s0)"
        "files s1 = (files ?s0)(index_path_of document_id \<mapsto> write_index env (map model chunks),
                 meta_path_of document_id \<mapsto>
                   json_dump env \<lparr>meta_chunks = Some chunks, meta_embedding_model = Some ?em\<rparr>)"
      with h c show ?thesis by (auto simp: upload_handler_Inr)
    qed
  qed
qed

lemma load_document_Inr:
  "load_document env s document_id b t = Inr s' \<longleftrightarrow>
     (\<exists>rows metadata m. read_index env b = Inr rows \<and> json_load env t = Inr metadata
        \<and> meta_embedding_model metadata = Some m \<and> m \<noteq> []
        \<and> s' = s\<lparr>documents_store :=
                  AList.update document_id (loaded_entry rows metadata m) (documents_store s)\<rparr>)"
  by (auto simp: load_document_def split: sum.splits option.splits)

lemma load_document_Inl:
  "load_document env s document_id b t = Inl e \<Longrightarrow>
     (\<exists>msg. e = Exception msg)
     \<or> e = HTTPException 500 ''Document missing embedding_model. Re-upload required.''"
  by (auto simp: load_document_def split: sum.splits option.splits if_splits)

lemma ensure_loaded_present:
  "map_of (documents_store s) document_id \<noteq> None \<Longrightarrow> ensure_loaded env s document_id = Inr s"
  by (auto simp: ensure_loaded_def)

lemma ensure_loaded_missing_files:
  "map_of (documents_store s) document_id = None \<Longrightarrow>
   files s (index_path_of document_id) = None \<or> files s (meta_path_of document_id) = None \<Longrightarrow>
   ensure_loaded env s document_id = Inl (HTTPException 404 ''Document not found'')"
  by (auto simp: ensure_loaded_def split: option.splits)

lemma ensure_loaded_reload:
  assumes "map_of (documents_store s) document_id = None"
    and "files s (index_path_of document_id) = Some b"
    and "files s (meta_path_of document_id) = Some t"
  shows "ensure_loaded env s document_id =
     (case load_document env s document_id b t of
        Inl e \<Rightarrow> Inl (reraise ''Failed to load document: '' e)
      | Inr s' \<Rightarrow> Inr s')"
  using assms by (simp add: ensure_loaded_def)

lemma ensure_loaded_Inr:
  assumes "ensure_loaded env s document_id = Inr s'"
  shows "s' = s \<and> map_of (documents_store s) document_id \<noteq> None
       \<or> (map_of (documents_store s) document_id = None
          \<and> (\<exists>b t rows metadata m. files s (index_path_of document_id) = Some b
                \<and> files s (meta_path_of document_id) = Some t
                \<and> read_index env b = Inr rows \<and> json_load env t = Inr metadata
                \<and> meta_embedding_model metadata = Some m \<and> m \<noteq> []
                \<and> s' = s\<lparr>documents_store :=
                     AList.update document_id (loaded_entry rows metadata m) (documents_store s)\<rparr>))"
proof (cases "map_of (documents_store s) document_id")
  case (Some d)
  with assms show ?thesis by (simp add: ensure_loaded_def)
next
  case None
  show ?thesis
  proof (cases "files s (index_path_of document_id)")
    case n: None
    with None assms show ?thesis by (simp add: ensure_loaded_missing_files)
  next
    case b: (Some b)
    show ?thesis
    proof (cases "files s (meta_path_of document_id)")
      case n: None
      with None assms show ?thesis by (simp add: ensure_loaded_missing_files)
    next
      case t: (Some t)
      from assms have "load_document env s document_id b t = Inr s'"
        by (simp add: ensure_loaded_reload [OF None b t] split: sum.splits)
      then show ?thesis using None b t by (simp add: load_document_Inr)
    qed
  qed
qed

lemma chat_state:
  "snd (chat env s request) = s
   \<or> ensure_loaded env s (req_document_id request) = Inr (snd (chat env s request))"
  by (auto simp: chat_def split: sum.splits option.splits)

lemma fold_remove_if_exists:
  "fold remove_if_exists ps fs p = None \<or> fold remove_if_exists ps fs p = fs p"
proof (induction ps arbitrary: fs)
  case Nil
  show ?case by simp
next
  case (Cons x ps)
  have "remove_if_exists x fs p = None \<or> remove_if_exists x fs p = fs p"
    by (auto simp: remove_if_exists_def split: option.splits)
  with Cons [of "remove_if_exists x fs"] show ?case by auto
qed

lemma delete_document_state:
  "documents_store (snd (delete_document s document_id)) = documents_store s
     \<and> files (snd (delete_document s document_id)) = files s
   \<or> documents_store (snd (delete_document s document_id)) =
        AList.delete document_id (documents_store s)
     \<and> (\<forall>p. files (snd (delete_document s document_id)) p = None
             \<or> files (snd (delete_document s document_id)) p = files s p)"
proof (cases "map_of (documents_store s) document_id")
  case None
  then show ?thesis by (simp add: delete_document_def)
next
  case (Some d)
  then show ?thesis
    using fold_remove_if_exists [of "[doc_file_path d, doc_index_path d, doc_meta_path d]" "files s"]
    by (simp add: delete_document_def Let_def)
qed

lemma disk_aligned_cong:
  assumes "fs' (index_path_of document_id) = fs (index_path_of document_id)"
    and "fs' (meta_path_of document_id) = fs (meta_path_of document_id)"
  shows "disk_aligned env fs' document_id = disk_aligned env fs document_id"
  by (simp only: disk_aligned_def assms)

lemma disk_aligned_absent:
  "fs (index_path_of document_id) = None \<or> fs (meta_path_of document_id) = None \<Longrightarrow>
     disk_aligned env fs document_id"
  by (auto simp: disk_aligned_def split: option.splits)

lemma disk_aligned_loaded:
  assumes "disk_aligned env fs document_id"
    and "fs (index_path_of document_id) = Some b" "fs (meta_path_of document_id) = Some t"
    and "read_index env b = Inr rows" "json_load env t = Inr metadata"
    and "meta_embedding_model metadata = Some m" "m \<noteq> []"
  shows "doc_aligned env (loaded_entry rows metadata m)"
  using assms by (simp add: disk_aligned_def)

end
